theory Spec2Isabelle
  imports Main "HOL-Library.AList"
begin

section \<open>JavaScript containers and strings\<close>

text \<open>
  A JavaScript \<open>Map\<close> iterates in insertion order and holds each key once: it is an
  association list. \<open>Map.set\<close> overwrites the value of a key in place or appends a new
  entry, \<open>Map.delete\<close> drops the entry, \<open>Map.get\<close> is the lookup.
\<close>

abbreviation Map_get :: "'k \<Rightarrow> ('k \<times> 'v) list \<Rightarrow> 'v option" where
  "Map_get k m \<equiv> map_of m k"

abbreviation Map_has :: "'k \<Rightarrow> ('k \<times> 'v) list \<Rightarrow> bool" where
  "Map_has k m \<equiv> map_of m k \<noteq> None"

abbreviation Map_set :: "'k \<Rightarrow> 'v \<Rightarrow> ('k \<times> 'v) list \<Rightarrow> ('k \<times> 'v) list" where
  "Map_set k v m \<equiv> AList.update k v m"

abbreviation Map_delete :: "'k \<Rightarrow> ('k \<times> 'v) list \<Rightarrow> ('k \<times> 'v) list" where
  "Map_delete k m \<equiv> AList.delete k m"

text \<open>
  A JavaScript \<open>Set\<close> is the list of its elements in insertion order. \<open>Set.add\<close>
  appends an element that is not there yet, \<open>Set.delete\<close> removes it, \<open>size === 0\<close>
  is the test for the empty list, and \<open>new Set(array)\<close> adds the elements of the array
  one after the other.
\<close>

definition Set_add :: "'a \<Rightarrow> 'a list \<Rightarrow> 'a list" where
  "Set_add x xs = (if x \<in> set xs then xs else xs @ [x])"

abbreviation Set_delete :: "'a \<Rightarrow> 'a list \<Rightarrow> 'a list" where
  "Set_delete x xs \<equiv> removeAll x xs"

definition new_Set :: "'a list \<Rightarrow> 'a list" where
  "new_Set xs = fold Set_add xs []"

text \<open>
  \<open>String.prototype.toLowerCase\<close> on the characters of \<^typ>\<open>string\<close>: the letters
  \<open>A\<close> to \<open>Z\<close> move to \<open>a\<close> to \<open>z\<close>, every other character stays. This is
  what JavaScript does on ASCII text. No proof below looks inside this function: each
  holds for any normalization of addresses.
\<close>

definition toLowerCase_char :: "char \<Rightarrow> char" where
  "toLowerCase_char c =
     (let n = (of_char c :: nat) in if 65 \<le> n \<and> n \<le> 90 then char_of (n + 32) else c)"

definition toLowerCase :: "string \<Rightarrow> string" where
  "toLowerCase s = map toLowerCase_char s"

section \<open>The notification service: data\<close>

record Subscription =
  addresses :: "string list"
  expoPushToken :: "string option"
  createdAt :: string

record SubscriptionData =
  data_addresses :: "string list"
  data_expoPushToken :: "string option"
  data_createdAt :: string

text \<open>
  The field \<open>subscriptions\<close> of a decoded snapshot may be missing: the loader reads
  \<open>saved.subscriptions || {}\<close>.
\<close>

record SavedSubscriptions =
  saved_subscriptions :: "(string \<times> SubscriptionData) list option"
  lastUpdated :: string

text \<open>
  A text handed to \<open>JSON.parse\<close> is either no JSON, and \<open>JSON.parse\<close> throws a
  SyntaxError, or it is the text \<open>JSON.stringify\<close> makes of a value, and
  \<open>JSON.parse\<close> gives that value back.
\<close>

datatype 'a json_text = NotJson string | Json 'a

datatype error = ENOENT | EACCES | SyntaxError

definition JSON_parse :: "'a json_text \<Rightarrow> error + 'a" where
  "JSON_parse t = (case t of NotJson s \<Rightarrow> Inl SyntaxError | Json v \<Rightarrow> Inr v)"

definition JSON_stringify :: "'a \<Rightarrow> 'a json_text" where
  "JSON_stringify v = Json v"

text \<open>
  The snapshot file \<open>subscriptions.json\<close>: it does not exist, or the process may not
  open it, or it holds a text.
\<close>

datatype disk_file = NoFile | Denied | File "SavedSubscriptions json_text"

definition fs_readFile :: "disk_file \<Rightarrow> error + SavedSubscriptions json_text" where
  "fs_readFile f = (case f of NoFile \<Rightarrow> Inl ENOENT | Denied \<Rightarrow> Inl EACCES | File t \<Rightarrow> Inr t)"

definition fs_writeFile :: "SavedSubscriptions json_text \<Rightarrow> disk_file \<Rightarrow> error + disk_file" where
  "fs_writeFile t f = (case f of Denied \<Rightarrow> Inl EACCES | _ \<Rightarrow> Inr (File t))"

datatype console_line =
    Reassigning string string string
  | SubscriptionsSaved
  | ErrorSaving error
  | Loaded nat
  | StartingFresh
  | ErrorLoading error
  | SubscriptionAdded string
  | MonitoringAddresses "string list"

record NotificationService =
  subscriptions :: "(string \<times> Subscription) list"
  addressToDevices :: "(string \<times> string list) list"
  dataFile :: disk_file
  console :: "console_line list"

definition console_log :: "console_line \<Rightarrow> NotificationService \<Rightarrow> NotificationService" where
  "console_log l st = st\<lparr>console := console st @ [l]\<rparr>"

text \<open>The registry with its two maps empty, beside a snapshot file on the disk.\<close>

definition new_service :: "disk_file \<Rightarrow> NotificationService" where
  "new_service f = \<lparr>subscriptions = [], addressToDevices = [], dataFile = f, console = []\<rparr>"

section \<open>Persistence\<close>

text \<open>
  \<open>data.subscriptions[deviceToken] = value\<close> on an object literal, \<open>value\<close> being an
  object. The property name \<open>__proto__\<close> is inherited from \<open>Object.prototype\<close> as an
  accessor: assigning to it replaces the prototype of the object and creates no own
  property, so \<open>JSON.stringify\<close> never sees it. Every other name becomes an own
  property (the order of the properties is kept as the order of insertion: no statement
  below depends on it).
\<close>

definition object_assign :: "string \<Rightarrow> 'v \<Rightarrow> (string \<times> 'v) list \<Rightarrow> (string \<times> 'v) list" where
  "object_assign k v obj = (if k = ''__proto__'' then obj else AList.update k v obj)"

definition Array_from :: "'a list \<Rightarrow> 'a list" where
  "Array_from s = s"

text \<open>The object literal the loop of \<open>saveSubscriptions\<close> stores for a subscription.\<close>

definition subscription_data :: "Subscription \<Rightarrow> SubscriptionData" where
  "subscription_data subscription =
     \<lparr>data_addresses = Array_from (addresses subscription),
      data_expoPushToken = expoPushToken subscription,
      data_createdAt = createdAt subscription\<rparr>"

definition snapshot_entry :: "string \<times> Subscription \<Rightarrow>
    (string \<times> SubscriptionData) list \<Rightarrow> (string \<times> SubscriptionData) list" where
  "snapshot_entry e obj =
     (case e of (deviceToken, subscription) \<Rightarrow>
        object_assign deviceToken (subscription_data subscription) obj)"

definition snapshot :: "string \<Rightarrow> NotificationService \<Rightarrow> SavedSubscriptions" where
  "snapshot now st =
     \<lparr>saved_subscriptions = Some (fold snapshot_entry (subscriptions st) []),
      lastUpdated = now\<rparr>"

definition saveSubscriptions :: "string \<Rightarrow> NotificationService \<Rightarrow> NotificationService" where
  "saveSubscriptions now st =
     (case fs_writeFile (JSON_stringify (snapshot now st)) (dataFile st) of
        Inl e \<Rightarrow> console_log (ErrorSaving e) st
      | Inr f \<Rightarrow> console_log SubscriptionsSaved (st\<lparr>dataFile := f\<rparr>))"

text \<open>
  The step shared by \<open>addSubscription\<close> and \<open>loadSubscriptions\<close>: create the index
  entry of the address when it is missing, then add the device to it.
\<close>

definition index_add :: "string \<Rightarrow> string \<Rightarrow> (string \<times> string list) list \<Rightarrow>
    (string \<times> string list) list" where
  "index_add deviceToken address idx =
     (let idx' = (if \<not> Map_has address idx then Map_set address [] idx else idx)
      in case Map_get address idx' of
           None \<Rightarrow> idx'
         | Some devices \<Rightarrow> Map_set address (Set_add deviceToken devices) idx')"

text \<open>The object literal the first loop of \<open>loadSubscriptions\<close> stores for an entry.\<close>

definition restored :: "SubscriptionData \<Rightarrow> Subscription" where
  "restored subscription =
     \<lparr>addresses = new_Set (data_addresses subscription),
      expoPushToken = data_expoPushToken subscription,
      createdAt = data_createdAt subscription\<rparr>"

definition restore_entry :: "string \<times> SubscriptionData \<Rightarrow>
    (string \<times> Subscription) list \<Rightarrow> (string \<times> Subscription) list" where
  "restore_entry e subs =
     (case e of (deviceToken, subscription) \<Rightarrow>
        Map_set deviceToken (restored subscription) subs)"

definition rebuild_entry :: "string \<times> Subscription \<Rightarrow>
    (string \<times> string list) list \<Rightarrow> (string \<times> string list) list" where
  "rebuild_entry e idx =
     (case e of (deviceToken, subscription) \<Rightarrow>
        fold (index_add deviceToken) (addresses subscription) idx)"

definition Object_entries :: "(string \<times> 'v) list option \<Rightarrow> (string \<times> 'v) list" where
  "Object_entries obj = (case obj of None \<Rightarrow> [] | Some kvs \<Rightarrow> kvs)"

text \<open>
  The body of the \<open>try\<close> block of \<open>loadSubscriptions\<close>: reading the file or
  decoding it may throw.
\<close>

definition load_snapshot :: "NotificationService \<Rightarrow> error + NotificationService" where
  "load_snapshot st =
     (case fs_readFile (dataFile st) of
        Inl e \<Rightarrow> Inl e
      | Inr data \<Rightarrow>
          (case JSON_parse data of
             Inl e \<Rightarrow> Inl e
           | Inr saved \<Rightarrow>
               (let subs = fold restore_entry (Object_entries (saved_subscriptions saved))
                             (subscriptions st);
                    idx = fold rebuild_entry subs (addressToDevices st)
                in Inr (console_log (Loaded (length subs))
                          (st\<lparr>subscriptions := subs, addressToDevices := idx\<rparr>)))))"

text \<open>
  \<open>loadSubscriptions\<close>: the \<open>catch\<close> clause tells a missing file (\<open>ENOENT\<close>) from
  every other error, writes one line to the console in both cases and returns. Nothing
  is thrown on to the caller.
\<close>

definition loadSubscriptions :: "NotificationService \<Rightarrow> NotificationService" where
  "loadSubscriptions st =
     (case load_snapshot st of
        Inl e \<Rightarrow>
          (if e = ENOENT then console_log StartingFresh st else console_log (ErrorLoading e) st)
      | Inr st' \<Rightarrow> st')"

text \<open>
  The constructor starts from two empty maps and calls \<open>loadSubscriptions\<close>. The
  call is not awaited; the load is taken here to have finished before the service is
  used.
\<close>

definition new_NotificationService :: "disk_file \<Rightarrow> NotificationService" where
  "new_NotificationService f = loadSubscriptions (new_service f)"

section \<open>The registry\<close>

text \<open>
  One round of the loop of \<open>removeSubscription\<close>: take the device out of the index
  entry of one address, and drop the entry when it is left empty.
\<close>

definition index_remove :: "string \<Rightarrow> string \<Rightarrow> (string \<times> string list) list \<Rightarrow>
    (string \<times> string list) list" where
  "index_remove deviceToken address idx =
     (case Map_get address idx of
        None \<Rightarrow> idx
      | Some devices \<Rightarrow>
          (let devices' = Set_delete deviceToken devices
           in if devices' = [] then Map_delete address idx
              else Map_set address devices' idx))"

definition removeSubscription :: "string \<Rightarrow> string \<Rightarrow> NotificationService \<Rightarrow>
    NotificationService" where
  "removeSubscription now deviceToken st =
     (case Map_get deviceToken (subscriptions st) of
        None \<Rightarrow> st
      | Some subscription \<Rightarrow>
          saveSubscriptions now
            (st\<lparr>addressToDevices :=
                   fold (index_remove deviceToken) (addresses subscription) (addressToDevices st),
                 subscriptions := Map_delete deviceToken (subscriptions st)\<rparr>))"

definition getDevicesForAddress :: "string \<Rightarrow> NotificationService \<Rightarrow> string list" where
  "getDevicesForAddress address st =
     (case Map_get address (addressToDevices st) of None \<Rightarrow> [] | Some devices \<Rightarrow> devices)"

text \<open>
  The body of the inner loop of \<open>unlinkOldDevices\<close>, for one \<open>otherDevice\<close>. The set
  \<open>existingDevices\<close> is the object stored in the index under \<open>address\<close>; once the loop
  has deleted that entry the object is empty, so at every round its content is what
  \<open>getDevicesForAddress\<close> reads.
\<close>

definition unlink_device :: "string \<Rightarrow> string \<Rightarrow> string \<Rightarrow> string \<Rightarrow>
    NotificationService \<Rightarrow> NotificationService" where
  "unlink_device deviceToken expoPushToken' address otherDevice st =
     (if otherDevice \<noteq> deviceToken then
        (case Map_get otherDevice (subscriptions st) of
           None \<Rightarrow> st
         | Some otherSub \<Rightarrow>
             if expoPushToken otherSub = Some expoPushToken' then
               (let st1 = console_log (Reassigning address otherDevice deviceToken) st;
                    otherSub' = otherSub\<lparr>addresses := Set_delete address (addresses otherSub)\<rparr>;
                    subs1 = Map_set otherDevice otherSub' (subscriptions st1);
                    subs2 = (if addresses otherSub' = [] then Map_delete otherDevice subs1
                             else subs1);
                    existingDevices = Set_delete otherDevice (getDevicesForAddress address st1);
                    idx1 = (if Map_has address (addressToDevices st1)
                            then Map_set address existingDevices (addressToDevices st1)
                            else addressToDevices st1);
                    idx2 = (if existingDevices = [] then Map_delete address idx1 else idx1)
                in st1\<lparr>subscriptions := subs2, addressToDevices := idx2\<rparr>)
             else st)
      else st)"

text \<open>
  The loops of \<open>unlinkOldDevices\<close>. A \<open>for ... of\<close> over a \<open>Set\<close> that deletes only
  the element it is visiting still visits every other element once, so the inner loop
  runs over the devices the entry held when the loop began.
\<close>

definition unlink_address :: "string \<Rightarrow> string \<Rightarrow> string \<Rightarrow>
    NotificationService \<Rightarrow> NotificationService" where
  "unlink_address deviceToken expoPushToken' address st =
     (case Map_get address (addressToDevices st) of
        None \<Rightarrow> st
      | Some existingDevices \<Rightarrow>
          fold (unlink_device deviceToken expoPushToken' address) existingDevices st)"

definition unlinkOldDevices :: "string \<Rightarrow> string list \<Rightarrow> string \<Rightarrow>
    NotificationService \<Rightarrow> NotificationService" where
  "unlinkOldDevices deviceToken addrs expoPushToken' st =
     fold (unlink_address deviceToken expoPushToken') (map toLowerCase addrs) st"

text \<open>
  The middle of \<open>addSubscription\<close>: store the new subscription under the device token
  and add the device to the index entry of each of its addresses.
\<close>

definition install :: "string \<Rightarrow> string \<Rightarrow> string list \<Rightarrow> string \<Rightarrow>
    NotificationService \<Rightarrow> NotificationService" where
  "install now deviceToken addrs expoPushToken' st =
     (let addressSet = new_Set (map toLowerCase addrs);
          st' = st\<lparr>subscriptions :=
                     Map_set deviceToken
                       \<lparr>addresses = addressSet, expoPushToken = Some expoPushToken',
                        createdAt = now\<rparr> (subscriptions st)\<rparr>
      in st'\<lparr>addressToDevices :=
                 fold (index_add deviceToken) addressSet (addressToDevices st')\<rparr>)"

definition addSubscription :: "string \<Rightarrow> string \<Rightarrow> string list \<Rightarrow> string \<Rightarrow>
    NotificationService \<Rightarrow> NotificationService" where
  "addSubscription now deviceToken addrs expoPushToken' st =
     saveSubscriptions now
       (install now deviceToken addrs expoPushToken'
          (removeSubscription now deviceToken
             (unlinkOldDevices deviceToken addrs expoPushToken' st)))"

section \<open>Sequences of calls\<close>

text \<open>
  A call of one of the two mutating operations of the registry, with the time the clock
  shows when it runs. The calls of a sequence run one after the other, each to its end.
\<close>

datatype call =
    AddSubscription string string "string list" string
  | RemoveSubscription string string

fun perform :: "call \<Rightarrow> NotificationService \<Rightarrow> NotificationService" where
  "perform (AddSubscription now deviceToken addrs expoPushToken') st =
     addSubscription now deviceToken addrs expoPushToken' st"
| "perform (RemoveSubscription now deviceToken) st = removeSubscription now deviceToken st"

definition run :: "call list \<Rightarrow> NotificationService \<Rightarrow> NotificationService" where
  "run calls st = fold perform calls st"


section \<open>Properties of a registry state\<close>

text \<open>
  The addresses a device is subscribed to, as the route \<open>GET /subscription/:deviceToken\<close>
  reads them; none when the device has no subscription.
\<close>

definition addressesOf :: "string \<Rightarrow> NotificationService \<Rightarrow> string list" where
  "addressesOf deviceToken st =
     (case Map_get deviceToken (subscriptions st) of None \<Rightarrow> [] | Some s \<Rightarrow> addresses s)"

text \<open>The index is the inverse of the subscriptions.\<close>

definition index_is_inverse :: "NotificationService \<Rightarrow> bool" where
  "index_is_inverse st \<longleftrightarrow>
     (\<forall>a d. d \<in> set (getDevicesForAddress a st) \<longleftrightarrow>
        (\<exists>s. Map_get d (subscriptions st) = Some s \<and> a \<in> set (addresses s)))"



text \<open>The two lists are maps: no key occurs twice.\<close>

definition keys_unique :: "NotificationService \<Rightarrow> bool" where
  "keys_unique st \<longleftrightarrow>
     distinct (map fst (subscriptions st)) \<and> distinct (map fst (addressToDevices st))"

text \<open>
  What is left of an index entry once a device has been taken out of it, and of a
  subscription once an address has been taken out of it: nothing when that was the last
  element.
\<close>

definition pruned :: "string \<Rightarrow> string list option \<Rightarrow> string list option" where
  "pruned d e =
     (case e of None \<Rightarrow> None
      | Some devices \<Rightarrow>
          if Set_delete d devices = [] then None else Some (Set_delete d devices))"

definition stripped :: "string \<Rightarrow> Subscription \<Rightarrow> Subscription option" where
  "stripped a s =
     (if Set_delete a (addresses s) = [] then None
      else Some (s\<lparr>addresses := Set_delete a (addresses s)\<rparr>))"

definition unlinked :: "string \<Rightarrow> string \<Rightarrow> Subscription option \<Rightarrow> Subscription option" where
  "unlinked p a e =
     (case e of None \<Rightarrow> None
      | Some s \<Rightarrow> if expoPushToken s = Some p then stripped a s else Some s)"

text \<open>The devices an index holds under an address, none when it has no entry.\<close>

definition devicesAt :: "string \<Rightarrow> (string \<times> string list) list \<Rightarrow> string list" where
  "devicesAt a idx = (case Map_get a idx of None \<Rightarrow> [] | Some devices \<Rightarrow> devices)"

text \<open>
  A subscription up to the order of its addresses: the set of addresses, the push token
  and the creation time.
\<close>

definition content :: "Subscription \<Rightarrow> string set \<times> string option \<times> string" where
  "content s = (set (addresses s), expoPushToken s, createdAt s)"

text \<open>The same three properties, read through the lookups.\<close>

definition index_pruned :: "NotificationService \<Rightarrow> bool" where
  "index_pruned st \<longleftrightarrow> (\<forall>a. Map_get a (addressToDevices st) \<noteq> Some [])"

definition subs_nonempty :: "NotificationService \<Rightarrow> bool" where
  "subs_nonempty st \<longleftrightarrow>
     (\<forall>d s. Map_get d (subscriptions st) = Some s \<longrightarrow> addresses s \<noteq> [])"

text \<open>
  The devices the inner loop of \<open>unlinkOldDevices\<close> strips: another device than the
  one subscribing, whose stored push token is the incoming one.
\<close>

definition hit :: "string \<Rightarrow> string \<Rightarrow> NotificationService \<Rightarrow> string \<Rightarrow> bool" where
  "hit d p st e \<longleftrightarrow>
     e \<noteq> d \<and> (case Map_get e (subscriptions st) of None \<Rightarrow> False
               | Some s \<Rightarrow> expoPushToken s = Some p)"

text \<open>
  A registry to run examples on: \<open>dev1\<close> watches two addresses with the push token
  \<open>tokA\<close>, and \<open>dev3\<close> watches the first of them with the push token \<open>tokB\<close>.
\<close>

definition example_calls :: "call list" where
  "example_calls =
     [AddSubscription ''t1'' ''dev1'' [''0xAA'', ''0xBB''] ''tokA'',
      AddSubscription ''t2'' ''dev3'' [''0xAA''] ''tokB'']"

definition example_registry :: NotificationService where
  "example_registry = run example_calls (new_service NoFile)"

section \<open>The route \<open>POST /subscribe\<close>\<close>

record SubscriptionRequest =
  req_deviceToken :: "string option"
  req_addresses :: "string list option"
  req_expoPushToken :: "string option"

datatype response =
    Status400 string
  | Status200 string

definition DUMMY_ADDRESS :: string where
  "DUMMY_ADDRESS = replicate 64 CHR ''0''"

text \<open>
  The handler. \<open>isShardusAddress\<close> (\<open>src/transformAddress.ts\<close>) and
  \<open>Expo.isExpoPushToken\<close> (the push provider's library) are parameters. A missing field
  of the body is \<open>None\<close>; \<open>!deviceToken\<close> also holds of the empty string. The
  \<open>catch\<close> clause of the handler answers 500; nothing in the body throws here, the
  registry operations catching their own errors.
\<close>

definition subscribe :: "(string \<Rightarrow> bool) \<Rightarrow> (string \<Rightarrow> bool) \<Rightarrow> string \<Rightarrow>
    SubscriptionRequest \<Rightarrow> NotificationService \<Rightarrow> response \<times> NotificationService" where
  "subscribe isShardusAddress isExpoPushToken now req st =
     (case req_deviceToken req of
        None \<Rightarrow> (Status400 ''MISSING_DEVICE_TOKEN'', st)
      | Some deviceToken \<Rightarrow>
          if deviceToken = [] then (Status400 ''MISSING_DEVICE_TOKEN'', st)
          else
            (case req_addresses req of
               None \<Rightarrow> (Status400 ''MISSING_ADDRESSES'', st)
             | Some addrs \<Rightarrow>
                 if addrs = [] then (Status400 ''MISSING_ADDRESSES'', st)
                 else if \<exists>address \<in> set addrs. \<not> isShardusAddress address
                   then (Status400 ''INVALID_ADDRESS'', st)
                 else if DUMMY_ADDRESS \<in> set addrs
                   then (Status200 ''Subscription removed successfully'',
                         removeSubscription now deviceToken st)
                 else
                   (case req_expoPushToken req of
                      None \<Rightarrow> (Status400 ''INVALID_EXPO_TOKEN'', st)
                    | Some token \<Rightarrow>
                        if token = [] \<or> \<not> isExpoPushToken token
                          then (Status400 ''INVALID_EXPO_TOKEN'', st)
                        else (Status200 ''Subscription added successfully'',
                              console_log (MonitoringAddresses addrs)
                                (console_log (SubscriptionAdded deviceToken)
                                   (addSubscription now deviceToken addrs token st))))))"

text \<open>
  Two validators to run the route on examples: an address of 64 hexadecimal digits, and
  a token of the form \<open>ExponentPushToken[...]\<close>.
\<close>

definition hex64 :: "string \<Rightarrow> bool" where
  "hex64 a \<longleftrightarrow> length a = 64 \<and> (\<forall>c \<in> set a. c \<in> set ''0123456789abcdefABCDEF'')"

definition bracketed_token :: "string \<Rightarrow> bool" where
  "bracketed_token t \<longleftrightarrow>
     take 18 t = ''ExponentPushToken['' \<and> 19 < length t \<and> last t = CHR '']''"

section \<open>The collector subscriber\<close>

record WebSocketMessage =
  msg_event :: string
  msg_data :: string

record SubscriberConfig =
  host :: string
  port :: nat
  reconnectDelay :: nat
  maxReconnectAttempts :: nat
  verbose :: bool

record PartialConfig =
  opt_host :: "string option"
  opt_port :: "nat option"
  opt_reconnectDelay :: "nat option"
  opt_maxReconnectAttempts :: "nat option"
  opt_verbose :: "bool option"

datatype readyState = CONNECTING | OPEN | CLOSING | CLOSED

datatype subscriber_line =
    ConnectingTo string nat
  | Connected
  | ReceivedMessage WebSocketMessage
  | ConnectionClosed nat string
  | WebSocketError
  | MaxAttemptsReached
  | AttemptingReconnect nat nat
  | ShuttingDown

text \<open>
  The subscriber. \<open>ws\<close> is the ready state of the socket the client holds, if any;
  \<open>timers\<close> counts the \<open>setTimeout\<close> callbacks that are scheduled and have not run yet;
  \<open>dataHandler\<close> is the registered callback, known by a name, and \<open>handled\<close> lists the
  calls made to it.
\<close>

record CollectorSubscriber =
  ws :: "readyState option"
  reconnectAttempts :: nat
  isReconnecting :: bool
  config :: SubscriberConfig
  dataHandler :: "string option"
  handled :: "(string \<times> WebSocketMessage) list"
  timers :: nat
  printed :: "subscriber_line list"

definition or_string :: "string option \<Rightarrow> string \<Rightarrow> string" where
  "or_string x d = (case x of None \<Rightarrow> d | Some s \<Rightarrow> if s = [] then d else s)"

definition or_number :: "nat option \<Rightarrow> nat \<Rightarrow> nat" where
  "or_number x d = (case x of None \<Rightarrow> d | Some n \<Rightarrow> if n = 0 then d else n)"

definition or_bool :: "bool option \<Rightarrow> bool \<Rightarrow> bool" where
  "or_bool x d = (case x of None \<Rightarrow> d | Some b \<Rightarrow> if b then b else d)"

definition new_CollectorSubscriber :: "PartialConfig \<Rightarrow> CollectorSubscriber" where
  "new_CollectorSubscriber c =
     \<lparr>ws = None, reconnectAttempts = 0, isReconnecting = False,
      config = \<lparr>host = or_string (opt_host c) ''localhost'',
                port = or_number (opt_port c) 4444,
                reconnectDelay = or_number (opt_reconnectDelay c) 5000,
                maxReconnectAttempts = or_number (opt_maxReconnectAttempts c) 10,
                verbose = or_bool (opt_verbose c) (or_bool (opt_verbose c) False)\<rparr>,
      dataHandler = None, handled = [], timers = 0, printed = []\<rparr>"

definition say :: "subscriber_line \<Rightarrow> CollectorSubscriber \<Rightarrow> CollectorSubscriber" where
  "say l st = st\<lparr>printed := printed st @ [l]\<rparr>"

definition connect :: "CollectorSubscriber \<Rightarrow> CollectorSubscriber" where
  "connect st =
     (let st1 = (if verbose (config st)
                 then say (ConnectingTo (host (config st)) (port (config st))) st else st)
      in st1\<lparr>ws := Some CONNECTING\<rparr>)"

definition onData :: "string \<Rightarrow> CollectorSubscriber \<Rightarrow> CollectorSubscriber" where
  "onData callback st = st\<lparr>dataHandler := Some callback\<rparr>"

definition handleMessage :: "WebSocketMessage \<Rightarrow> CollectorSubscriber \<Rightarrow> CollectorSubscriber" where
  "handleMessage message st =
     (let st1 = (if verbose (config st) then say (ReceivedMessage message) st else st)
      in case dataHandler st1 of
           None \<Rightarrow> st1
         | Some callback \<Rightarrow> st1\<lparr>handled := handled st1 @ [(callback, message)]\<rparr>)"

definition attemptReconnect :: "CollectorSubscriber \<Rightarrow> CollectorSubscriber" where
  "attemptReconnect st =
     (if isReconnecting st \<or> reconnectAttempts st \<ge> maxReconnectAttempts (config st) then
        (if reconnectAttempts st \<ge> maxReconnectAttempts (config st)
         then say MaxAttemptsReached st else st)
      else
        (let st1 = st\<lparr>isReconnecting := True, reconnectAttempts := reconnectAttempts st + 1\<rparr>;
             st2 = say (AttemptingReconnect (reconnectAttempts st1)
                          (maxReconnectAttempts (config st1))) st1
         in st2\<lparr>timers := timers st2 + 1\<rparr>))"

text \<open>
  The four handlers \<open>connect\<close> puts on the socket. On \<open>open\<close> the socket is in state
  \<open>OPEN\<close>. The \<open>message\<close> handler decodes the frame with no \<open>try\<close> around it, so
  the SyntaxError of \<open>JSON.parse\<close> leaves the handler: the result \<open>Inl\<close>.
\<close>

definition on_open :: "CollectorSubscriber \<Rightarrow> CollectorSubscriber" where
  "on_open st =
     (say Connected (st\<lparr>ws := map_option (\<lambda>_. OPEN) (ws st)\<rparr>))
       \<lparr>reconnectAttempts := 0, isReconnecting := False\<rparr>"

definition on_message :: "WebSocketMessage json_text \<Rightarrow> CollectorSubscriber \<Rightarrow>
    error + CollectorSubscriber" where
  "on_message raw st =
     (case JSON_parse raw of
        Inl e \<Rightarrow> Inl e
      | Inr message \<Rightarrow> Inr (handleMessage message st))"

definition on_close :: "nat \<Rightarrow> string \<Rightarrow> CollectorSubscriber \<Rightarrow> CollectorSubscriber" where
  "on_close code reason st =
     attemptReconnect ((say (ConnectionClosed code reason) st)\<lparr>ws := None\<rparr>)"

definition on_error :: "CollectorSubscriber \<Rightarrow> CollectorSubscriber" where
  "on_error st =
     (let st1 = say WebSocketError st
      in case ws st1 of
           None \<Rightarrow> st1
         | Some s \<Rightarrow> st1\<lparr>ws := Some CLOSING, isReconnecting := False\<rparr>)"

text \<open>The callback given to \<open>setTimeout\<close> runs \<open>connect\<close>.\<close>

definition on_timeout :: "CollectorSubscriber \<Rightarrow> CollectorSubscriber" where
  "on_timeout st = (if timers st = 0 then st else connect (st\<lparr>timers := timers st - 1\<rparr>))"

definition disconnect :: "CollectorSubscriber \<Rightarrow> CollectorSubscriber" where
  "disconnect st =
     (case ws st of None \<Rightarrow> st | Some s \<Rightarrow> (say ShuttingDown st)\<lparr>ws := None\<rparr>)"

definition isConnected :: "CollectorSubscriber \<Rightarrow> bool" where
  "isConnected st \<longleftrightarrow> ws st \<noteq> None \<and> ws st = Some OPEN"


text \<open>
  The events that reach the client, and a run of the client over a sequence of them. An
  exception that leaves a handler ends the run.
\<close>

datatype event =
    Open
  | Message "WebSocketMessage json_text"
  | Close nat string
  | Error
  | Timeout

fun dispatch :: "event \<Rightarrow> CollectorSubscriber \<Rightarrow> error + CollectorSubscriber" where
  "dispatch Open st = Inr (on_open st)"
| "dispatch (Message raw) st = on_message raw st"
| "dispatch (Close code reason) st = Inr (on_close code reason st)"
| "dispatch Error st = Inr (on_error st)"
| "dispatch Timeout st = Inr (on_timeout st)"

fun receive :: "event list \<Rightarrow> CollectorSubscriber \<Rightarrow> error + CollectorSubscriber" where
  "receive [] st = Inr st"
| "receive (e # es) st = (case dispatch e st of Inl x \<Rightarrow> Inl x | Inr st' \<Rightarrow> receive es st')"






text \<open>A client with a budget of two reconnect attempts, after its first \<open>connect\<close>.\<close>

definition two_attempts :: CollectorSubscriber where
  "two_attempts =
     connect (new_CollectorSubscriber
       \<lparr>opt_host = None, opt_port = None, opt_reconnectDelay = Some 3000,
        opt_maxReconnectAttempts = Some 2, opt_verbose = None\<rparr>)"

section \<open>Facts about the containers\<close>

lemma set_Set_add [simp]: "set (Set_add x xs) = insert x (set xs)"
  by (auto simp: Set_add_def)

lemma Set_add_not_Nil [simp]: "Set_add x xs \<noteq> []"
  by (auto simp: Set_add_def)

lemma distinct_Set_add [simp]: "distinct xs \<Longrightarrow> distinct (Set_add x xs)"
  by (simp add: Set_add_def)

lemma set_fold_Set_add: "set (fold Set_add xs ys) = set xs \<union> set ys"
  by (induction xs arbitrary: ys) auto

lemma distinct_fold_Set_add: "distinct ys \<Longrightarrow> distinct (fold Set_add xs ys)"
  by (induction xs arbitrary: ys) auto

lemma set_new_Set [simp]: "set (new_Set xs) = set xs"
  by (simp add: new_Set_def set_fold_Set_add)

lemma distinct_new_Set [simp]: "distinct (new_Set xs)"
  by (simp add: new_Set_def distinct_fold_Set_add)

lemma new_Set_Nil_iff [simp]: "new_Set xs = [] \<longleftrightarrow> xs = []"
  by (metis set_new_Set set_empty)

lemma subscriptions_console_log [simp]: "subscriptions (console_log l st) = subscriptions st"
  and addressToDevices_console_log [simp]:
    "addressToDevices (console_log l st) = addressToDevices st"
  and dataFile_console_log [simp]: "dataFile (console_log l st) = dataFile st"
  by (simp_all add: console_log_def)

lemma subscriptions_saveSubscriptions [simp]:
  "subscriptions (saveSubscriptions now st) = subscriptions st"
  by (simp add: saveSubscriptions_def split: sum.splits)

lemma addressToDevices_saveSubscriptions [simp]:
  "addressToDevices (saveSubscriptions now st) = addressToDevices st"
  by (simp add: saveSubscriptions_def split: sum.splits)

lemma getDevicesForAddress_saveSubscriptions [simp]:
  "getDevicesForAddress a (saveSubscriptions now st) = getDevicesForAddress a st"
  by (simp add: getDevicesForAddress_def)

subsection \<open>The index loops\<close>

lemma pruned_idem [simp]: "pruned d (pruned d e) = pruned d e"
  by (simp add: pruned_def split: option.splits)

lemma map_of_index_remove:
  "map_of (index_remove d a idx) b = (if b = a then pruned d (map_of idx a) else map_of idx b)"
  by (simp add: index_remove_def pruned_def Let_def update_conv' delete_conv' split: option.splits)

lemma map_of_fold_index_remove:
  "map_of (fold (index_remove d) as idx) b =
     (if b \<in> set as then pruned d (map_of idx b) else map_of idx b)"
  by (induction as arbitrary: idx) (auto simp: map_of_index_remove)

lemma distinct_index_remove:
  "distinct (map fst idx) \<Longrightarrow> distinct (map fst (index_remove d a idx))"
  by (simp add: index_remove_def Let_def distinct_update distinct_delete split: option.splits)

lemma distinct_fold_index_remove:
  "distinct (map fst idx) \<Longrightarrow> distinct (map fst (fold (index_remove d) as idx))"
  by (induction as arbitrary: idx) (auto simp: distinct_index_remove)

lemma index_add_eq:
  "index_add d a idx = Map_set a (Set_add d (case map_of idx a of None \<Rightarrow> [] | Some ds \<Rightarrow> ds)) idx"
  by (simp add: index_add_def Let_def update_conv' split: option.splits)

lemma map_of_index_add:
  "map_of (index_add d a idx) b =
     (if b = a then Some (Set_add d (case map_of idx a of None \<Rightarrow> [] | Some ds \<Rightarrow> ds))
      else map_of idx b)"
  by (simp add: index_add_eq update_conv')

lemma Set_add_idem [simp]: "Set_add d (Set_add d ds) = Set_add d ds"
  by (simp add: Set_add_def)

lemma map_of_fold_index_add:
  "map_of (fold (index_add d) as idx) b =
     (if b \<in> set as then Some (Set_add d (case map_of idx b of None \<Rightarrow> [] | Some ds \<Rightarrow> ds))
      else map_of idx b)"
  by (induction as arbitrary: idx) (auto simp: map_of_index_add)

lemma distinct_fold_index_add:
  "distinct (map fst idx) \<Longrightarrow> distinct (map fst (fold (index_add d) as idx))"
  by (induction as arbitrary: idx) (auto simp: index_add_eq distinct_update)


subsection \<open>One round of the unlinking loop\<close>

lemma unlinked_idem [simp]: "unlinked p a (unlinked p a e) = unlinked p a e"
  by (auto simp: unlinked_def stripped_def split: option.splits)

lemma unlink_device_miss: "\<not> hit d p st o' \<Longrightarrow> unlink_device d p a o' st = st"
  by (auto simp: unlink_device_def hit_def split: option.splits)

lemma hitE:
  assumes "hit d p st e"
  obtains s where "e \<noteq> d" "map_of (subscriptions st) e = Some s" "expoPushToken s = Some p"
  using assms by (auto simp: hit_def split: option.splits)

lemma subscriptions_unlink_device:
  "map_of (subscriptions (unlink_device d p a o' st)) e =
     (if e = o' \<and> e \<noteq> d then unlinked p a (map_of (subscriptions st) e)
      else map_of (subscriptions st) e)"
  by (auto simp: unlink_device_def unlinked_def stripped_def Let_def update_conv' delete_conv'
           split: option.splits)

lemma addressToDevices_unlink_device:
  "map_of (addressToDevices (unlink_device d p a o' st)) b =
     (if b = a \<and> hit d p st o' then pruned o' (map_of (addressToDevices st) a)
      else map_of (addressToDevices st) b)"
  by (auto simp: unlink_device_def hit_def pruned_def getDevicesForAddress_def Let_def
                 update_conv' delete_conv' split: option.splits)



lemma removeAll_eq_Nil_iff: "removeAll x xs = [] \<longleftrightarrow> set xs \<subseteq> {x}"
  by (induction xs) auto

lemma in_addressesOf_iff:
  "a \<in> set (addressesOf d st) \<longleftrightarrow>
     (\<exists>s. map_of (subscriptions st) d = Some s \<and> a \<in> set (addresses s))"
  by (cases "map_of (subscriptions st) d") (simp_all add: addressesOf_def)

lemma index_is_inverse_iff:
  "index_is_inverse st \<longleftrightarrow>
     (\<forall>a d. d \<in> set (getDevicesForAddress a st) \<longleftrightarrow> a \<in> set (addressesOf d st))"
  by (simp add: index_is_inverse_def in_addressesOf_iff)

lemma devices_unlink_device:
  "set (getDevicesForAddress b (unlink_device d p a o' st)) =
     (if b = a \<and> hit d p st o' then set (getDevicesForAddress a st) - {o'}
      else set (getDevicesForAddress b st))"
  by (auto simp: getDevicesForAddress_def addressToDevices_unlink_device pruned_def
           removeAll_eq_Nil_iff split: option.splits)

lemma addressesOf_unlink_device:
  "set (addressesOf e (unlink_device d p a o' st)) =
     (if e = o' \<and> hit d p st o' then set (addressesOf o' st) - {a}
      else set (addressesOf e st))"
  by (auto simp: addressesOf_def subscriptions_unlink_device unlinked_def stripped_def hit_def
           removeAll_eq_Nil_iff split: option.splits)

lemma inverse_unlink_device:
  "index_is_inverse st \<Longrightarrow> index_is_inverse (unlink_device d p a o' st)"
  unfolding index_is_inverse_iff
  by (auto simp: devices_unlink_device addressesOf_unlink_device)

lemma inverse_fold_unlink_device:
  "index_is_inverse st \<Longrightarrow> index_is_inverse (fold (unlink_device d p a) os st)"
  by (induction os arbitrary: st) (auto simp: inverse_unlink_device)

lemma inverse_unlink_address:
  "index_is_inverse st \<Longrightarrow> index_is_inverse (unlink_address d p a st)"
  by (simp add: unlink_address_def inverse_fold_unlink_device split: option.splits)

lemma inverse_unlinkOldDevices:
  "index_is_inverse st \<Longrightarrow> index_is_inverse (unlinkOldDevices d as p st)"
  unfolding unlinkOldDevices_def
  by (induction as arbitrary: st) (auto simp: inverse_unlink_address)

lemma devices_removeSubscription:
  "set (getDevicesForAddress a (removeSubscription now d st)) =
     (if a \<in> set (addressesOf d st) then set (getDevicesForAddress a st) - {d}
      else set (getDevicesForAddress a st))"
  by (auto simp: removeSubscription_def getDevicesForAddress_def addressesOf_def
      map_of_fold_index_remove pruned_def removeAll_eq_Nil_iff split: option.splits)

lemma subscriptions_removeSubscription:
  "map_of (subscriptions (removeSubscription now d st)) e =
     (if e = d then None else map_of (subscriptions st) e)"
  by (auto simp: removeSubscription_def delete_conv' split: option.splits)

lemma addressesOf_removeSubscription:
  "addressesOf e (removeSubscription now d st) = (if e = d then [] else addressesOf e st)"
  by (simp add: addressesOf_def subscriptions_removeSubscription)

lemma inverse_removeSubscription:
  "index_is_inverse st \<Longrightarrow> index_is_inverse (removeSubscription now d st)"
  unfolding index_is_inverse_iff
  by (auto simp: devices_removeSubscription addressesOf_removeSubscription)

lemma subscriptions_install:
  "map_of (subscriptions (install now d as p st)) e =
     (if e = d then Some \<lparr>addresses = new_Set (map toLowerCase as), expoPushToken = Some p,
                          createdAt = now\<rparr>
      else map_of (subscriptions st) e)"
  by (simp add: install_def Let_def update_conv')

lemma addressToDevices_install:
  "map_of (addressToDevices (install now d as p st)) a =
     (if a \<in> set (map toLowerCase as)
      then Some (Set_add d (getDevicesForAddress a st))
      else map_of (addressToDevices st) a)"
  by (simp add: install_def Let_def map_of_fold_index_add getDevicesForAddress_def)

lemma subscriptions_addSubscription:
  "map_of (subscriptions (addSubscription now d as p st)) e =
     (if e = d then Some \<lparr>addresses = new_Set (map toLowerCase as), expoPushToken = Some p,
                          createdAt = now\<rparr>
      else map_of (subscriptions (unlinkOldDevices d as p st)) e)"
  by (simp add: addSubscription_def subscriptions_install subscriptions_removeSubscription)

lemma addressesOf_addSubscription:
  "set (addressesOf e (addSubscription now d as p st)) =
     (if e = d then set (map toLowerCase as)
      else set (addressesOf e (unlinkOldDevices d as p st)))"
  by (simp add: addressesOf_def subscriptions_addSubscription)

lemma getDevicesForAddress_install:
  "getDevicesForAddress a (install now d as p st) =
     (if a \<in> set (map toLowerCase as) then Set_add d (getDevicesForAddress a st)
      else getDevicesForAddress a st)"
proof -
  have "getDevicesForAddress a (install now d as p st) =
      (case map_of (addressToDevices (install now d as p st)) a of None \<Rightarrow> [] | Some ds \<Rightarrow> ds)"
    by (simp add: getDevicesForAddress_def)
  also have "\<dots> = (if a \<in> set (map toLowerCase as) then Set_add d (getDevicesForAddress a st)
      else getDevicesForAddress a st)"
    unfolding addressToDevices_install by (simp add: getDevicesForAddress_def)
  finally show ?thesis .
qed

lemma devices_addSubscription:
  "set (getDevicesForAddress a (addSubscription now d as p st)) =
     (if a \<in> set (map toLowerCase as)
      then insert d (set (getDevicesForAddress a (removeSubscription now d (unlinkOldDevices d as p st))))
      else set (getDevicesForAddress a (removeSubscription now d (unlinkOldDevices d as p st))))"
  by (simp add: addSubscription_def getDevicesForAddress_install)

lemma inverse_addSubscription:
  assumes "index_is_inverse st"
  shows "index_is_inverse (addSubscription now d as p st)"
proof -
  have u: "index_is_inverse (unlinkOldDevices d as p st)"
    using assms by (rule inverse_unlinkOldDevices)
  then show ?thesis
    unfolding index_is_inverse_iff
    by (auto simp: devices_addSubscription addressesOf_addSubscription
        devices_removeSubscription)
qed


subsection \<open>Keys stay unique\<close>

lemma keys_unique_unlink_device:
  "keys_unique st \<Longrightarrow> keys_unique (unlink_device d p a o' st)"
  by (auto simp: keys_unique_def unlink_device_def Let_def distinct_update distinct_delete
           split: option.splits)

lemma keys_unique_fold_unlink_device:
  "keys_unique st \<Longrightarrow> keys_unique (fold (unlink_device d p a) os st)"
  by (induction os arbitrary: st) (auto simp: keys_unique_unlink_device)

lemma keys_unique_unlink_address:
  "keys_unique st \<Longrightarrow> keys_unique (unlink_address d p a st)"
  by (simp add: unlink_address_def keys_unique_fold_unlink_device split: option.splits)

lemma keys_unique_unlinkOldDevices:
  "keys_unique st \<Longrightarrow> keys_unique (unlinkOldDevices d as p st)"
  unfolding unlinkOldDevices_def
  by (induction as arbitrary: st) (auto simp: keys_unique_unlink_address)

lemma keys_unique_saveSubscriptions [simp]:
  "keys_unique (saveSubscriptions now st) = keys_unique st"
  by (simp add: keys_unique_def)

lemma keys_unique_removeSubscription:
  "keys_unique st \<Longrightarrow> keys_unique (removeSubscription now d st)"
  by (auto simp: removeSubscription_def split: option.splits)
     (auto simp: keys_unique_def distinct_delete distinct_fold_index_remove)

lemma keys_unique_addSubscription:
  assumes "keys_unique st"
  shows "keys_unique (addSubscription now d as p st)"
proof -
  have "keys_unique (removeSubscription now d (unlinkOldDevices d as p st))"
    using assms by (intro keys_unique_removeSubscription keys_unique_unlinkOldDevices)
  then show ?thesis
    by (simp add: addSubscription_def install_def Let_def)
       (simp add: keys_unique_def distinct_update distinct_fold_index_add)
qed

subsection \<open>No empty index entry\<close>








subsection \<open>No empty subscription\<close>









subsection \<open>States reached by calls\<close>

lemma new_service_ok:
  "keys_unique (new_service f)" "index_is_inverse (new_service f)"
  "index_pruned (new_service f)" "subs_nonempty (new_service f)"
  by (simp_all add: new_service_def keys_unique_def index_is_inverse_def index_pruned_def
      subs_nonempty_def getDevicesForAddress_def)

lemma keys_unique_run: "keys_unique st \<Longrightarrow> keys_unique (run calls st)"
  unfolding run_def
proof (induction calls arbitrary: st)
  case Nil
  then show ?case by simp
next
  case (Cons c calls)
  have "keys_unique (perform c st)"
    using Cons.prems
    by (cases c) (simp_all add: keys_unique_addSubscription keys_unique_removeSubscription)
  then show ?case by (simp add: Cons.IH)
qed

lemma inverse_run: "index_is_inverse st \<Longrightarrow> index_is_inverse (run calls st)"
  unfolding run_def
proof (induction calls arbitrary: st)
  case Nil
  then show ?case by simp
next
  case (Cons c calls)
  have "index_is_inverse (perform c st)"
    using Cons.prems
    by (cases c) (simp_all add: inverse_addSubscription inverse_removeSubscription)
  then show ?case by (simp add: Cons.IH)
qed





subsection \<open>The frame of \<open>removeSubscription\<close>\<close>

text \<open>
  Claim C10. In any registry state, \<open>removeSubscription\<close> of a device \<open>d\<close> leaves the
  subscription of every other device as it was, leaves the index entry of every address
  outside the subscription of \<open>d\<close> as it was, and in the entry of an address of
  \<open>d\<close> only takes \<open>d\<close> out, dropping the entry when nothing is left. For a device
  with no subscription the whole state is unchanged, so a second removal changes
  nothing.
\<close>

theorem removeSubscription_frame:
  "(e \<noteq> d \<longrightarrow>
      Map_get e (subscriptions (removeSubscription now d st)) = Map_get e (subscriptions st)) \<and>
   (a \<notin> set (addressesOf d st) \<longrightarrow>
      Map_get a (addressToDevices (removeSubscription now d st)) =
        Map_get a (addressToDevices st)) \<and>
   (b \<in> set (addressesOf d st) \<longrightarrow>
      Map_get b (addressToDevices (removeSubscription now d st)) =
        pruned d (Map_get b (addressToDevices st))) \<and>
   (Map_get d' (subscriptions st) = None \<longrightarrow> removeSubscription now d' st = st) \<and>
   removeSubscription now' d (removeSubscription now d st) = removeSubscription now d st"
proof (intro conjI impI)
  show "Map_get e (subscriptions (removeSubscription now d st)) = Map_get e (subscriptions st)"
    if "e \<noteq> d"
    using that by (simp add: subscriptions_removeSubscription)
  show "Map_get a (addressToDevices (removeSubscription now d st)) =
      Map_get a (addressToDevices st)" if "a \<notin> set (addressesOf d st)"
    using that
    by (auto simp: removeSubscription_def addressesOf_def map_of_fold_index_remove
        split: option.splits)
  show "Map_get b (addressToDevices (removeSubscription now d st)) =
      pruned d (Map_get b (addressToDevices st))" if "b \<in> set (addressesOf d st)"
    using that
    by (auto simp: removeSubscription_def addressesOf_def map_of_fold_index_remove
        split: option.splits)
  show "removeSubscription now d' st = st" if "Map_get d' (subscriptions st) = None"
    using that by (simp add: removeSubscription_def)
  have "Map_get d (subscriptions (removeSubscription now d st)) = None"
    by (simp add: subscriptions_removeSubscription)
  then show "removeSubscription now' d (removeSubscription now d st) =
      removeSubscription now d st"
    by (simp add: removeSubscription_def [of now' d])
qed

lemma example_registry_eq:
  "example_registry =
     \<lparr>subscriptions =
        [(''dev1'', \<lparr>addresses = [''0xaa'', ''0xbb''], expoPushToken = Some ''tokA'',
                     createdAt = ''t1''\<rparr>),
         (''dev3'', \<lparr>addresses = [''0xaa''], expoPushToken = Some ''tokB'',
                     createdAt = ''t2''\<rparr>)],
      addressToDevices = [(''0xaa'', [''dev1'', ''dev3'']), (''0xbb'', [''dev1''])],
      dataFile = File (Json
        \<lparr>saved_subscriptions = Some
           [(''dev1'', \<lparr>data_addresses = [''0xaa'', ''0xbb''],
                        data_expoPushToken = Some ''tokA'', data_createdAt = ''t1''\<rparr>),
            (''dev3'', \<lparr>data_addresses = [''0xaa''],
                        data_expoPushToken = Some ''tokB'', data_createdAt = ''t2''\<rparr>)],
         lastUpdated = ''t2''\<rparr>),
      console = [SubscriptionsSaved, SubscriptionsSaved]\<rparr>"
  by code_simp

text \<open>
  The frame at the example registry: removing \<open>dev1\<close> leaves \<open>dev3\<close> and the
  entry of an address \<open>dev1\<close> does not watch alone, and takes \<open>dev1\<close> out of the entry
  of \<open>0xaa\<close>; removing the unknown \<open>dev9\<close> changes nothing.
\<close>

theorem removeSubscription_frame_witness:
  "''dev3'' \<noteq> ''dev1'' \<and>
   Map_get ''dev3'' (subscriptions (removeSubscription ''t3'' ''dev1'' example_registry)) =
     Map_get ''dev3'' (subscriptions example_registry) \<and>
   ''0xcc'' \<notin> set (addressesOf ''dev1'' example_registry) \<and>
   Map_get ''0xcc'' (addressToDevices (removeSubscription ''t3'' ''dev1'' example_registry)) =
     Map_get ''0xcc'' (addressToDevices example_registry) \<and>
   ''0xaa'' \<in> set (addressesOf ''dev1'' example_registry) \<and>
   Map_get ''0xaa'' (addressToDevices (removeSubscription ''t3'' ''dev1'' example_registry)) =
     pruned ''dev1'' (Map_get ''0xaa'' (addressToDevices example_registry)) \<and>
   Map_get ''dev9'' (subscriptions example_registry) = None \<and>
   removeSubscription ''t3'' ''dev9'' example_registry = example_registry \<and>
   removeSubscription ''t4'' ''dev1'' (removeSubscription ''t3'' ''dev1'' example_registry) =
     removeSubscription ''t3'' ''dev1'' example_registry"
proof -
  have h1: "''dev3'' \<noteq> ''dev1''" by simp
  have h2: "''0xcc'' \<notin> set (addressesOf ''dev1'' example_registry)"
    by (simp add: example_registry_eq addressesOf_def)
  have h3: "''0xaa'' \<in> set (addressesOf ''dev1'' example_registry)"
    by (simp add: example_registry_eq addressesOf_def)
  have h4: "Map_get ''dev9'' (subscriptions example_registry) = None"
    by (simp add: example_registry_eq)
  show ?thesis
    using h1 h2 h3 h4
      removeSubscription_frame [of "''dev3''" "''dev1''" "''t3''" example_registry
        "''0xcc''" "''0xaa''" "''dev9''" "''t4''"]
    by blast
qed


subsection \<open>What unlinking does to the subscriptions\<close>

lemma subscriptions_fold_unlink_device:
  "map_of (subscriptions (fold (unlink_device d p a) os st)) e =
     (if e \<in> set os \<and> e \<noteq> d then unlinked p a (map_of (subscriptions st) e)
      else map_of (subscriptions st) e)"
  by (induction os arbitrary: st) (auto simp: subscriptions_unlink_device)

lemma subscriptions_unlink_address:
  "map_of (subscriptions (unlink_address d p a st)) e =
     (if e \<in> set (getDevicesForAddress a st) \<and> e \<noteq> d
      then unlinked p a (map_of (subscriptions st) e)
      else map_of (subscriptions st) e)"
  by (simp add: unlink_address_def getDevicesForAddress_def subscriptions_fold_unlink_device
      split: option.splits)

lemma subscriptions_unlink_address_self:
  "map_of (subscriptions (unlink_address d p a st)) d = map_of (subscriptions st) d"
  by (simp add: subscriptions_unlink_address)

lemma subscriptions_unlinkOldDevices_self:
  "map_of (subscriptions (unlinkOldDevices d as p st)) d = map_of (subscriptions st) d"
  unfolding unlinkOldDevices_def
  by (induction as arbitrary: st) (auto simp: subscriptions_unlink_address_self)

lemma unlinkOldDevices_single:
  "unlinkOldDevices d [a] p st = unlink_address d p (toLowerCase a) st"
  by (simp add: unlinkOldDevices_def)

subsection \<open>Full replace\<close>

lemma removed_device_resolves_nowhere:
  assumes "index_is_inverse st"
  shows "d \<notin> set (getDevicesForAddress a (removeSubscription now d st))"
proof -
  have "index_is_inverse (removeSubscription now d st)"
    using assms by (rule inverse_removeSubscription)
  then show ?thesis
    by (simp add: index_is_inverse_iff addressesOf_removeSubscription)
qed

text \<open>
  Claim C5. Let a device \<open>D\<close> hold a subscription in a state reached from the empty
  registry. A second \<open>addSubscription\<close> for \<open>D\<close> first removes the whole prior
  subscription of \<open>D\<close> and takes \<open>D\<close> out of every index entry, and installs the new
  subscription on that state. Afterwards the subscription of \<open>D\<close> holds exactly the
  lower-cased new addresses with the new push token, and an address resolves to \<open>D\<close>
  if and only if it is one of them: no address of the prior set that is absent from the
  (lower-cased) new ones resolves to \<open>D\<close>. The new set replaces the old one and is never
  merged with it.
\<close>

theorem full_replace:
  assumes "Map_get D (subscriptions (run calls (new_service f))) = Some old"
  shows "Map_get D (subscriptions (removeSubscription now D
            (unlinkOldDevices D new p (run calls (new_service f))))) = None \<and>
         (\<forall>a. D \<notin> set (getDevicesForAddress a (removeSubscription now D
            (unlinkOldDevices D new p (run calls (new_service f)))))) \<and>
         addSubscription now D new p (run calls (new_service f)) =
           saveSubscriptions now (install now D new p (removeSubscription now D
             (unlinkOldDevices D new p (run calls (new_service f))))) \<and>
         Map_get D (subscriptions (addSubscription now D new p (run calls (new_service f)))) =
           Some \<lparr>addresses = new_Set (map toLowerCase new), expoPushToken = Some p,
                 createdAt = now\<rparr> \<and>
         set (addressesOf D (addSubscription now D new p (run calls (new_service f)))) =
           set (map toLowerCase new) \<and>
         (\<forall>a. D \<in> set (getDevicesForAddress a
                  (addSubscription now D new p (run calls (new_service f)))) \<longleftrightarrow>
              a \<in> set (map toLowerCase new)) \<and>
         (\<forall>a \<in> set (addresses old). a \<notin> set (map toLowerCase new) \<longrightarrow>
              D \<notin> set (getDevicesForAddress a
                  (addSubscription now D new p (run calls (new_service f)))))"
proof -
  let ?st = "run calls (new_service f)"
  let ?u = "unlinkOldDevices D new p ?st"
  let ?st2 = "removeSubscription now D ?u"
  let ?st' = "addSubscription now D new p ?st"
  have inv: "index_is_inverse ?u"
    by (simp add: inverse_unlinkOldDevices inverse_run new_service_ok)
  have gone: "Map_get D (subscriptions ?st2) = None"
    by (simp add: subscriptions_removeSubscription)
  have nowhere: "\<forall>a. D \<notin> set (getDevicesForAddress a ?st2)"
    using inv by (simp add: removed_device_resolves_nowhere)
  have eq: "?st' = saveSubscriptions now (install now D new p ?st2)"
    by (simp add: addSubscription_def)
  have new_sub: "Map_get D (subscriptions ?st') =
      Some \<lparr>addresses = new_Set (map toLowerCase new), expoPushToken = Some p, createdAt = now\<rparr>"
    by (simp add: subscriptions_addSubscription)
  have new_addrs: "set (addressesOf D ?st') = set (map toLowerCase new)"
    by (simp add: addressesOf_addSubscription)
  have resolves: "\<forall>a. D \<in> set (getDevicesForAddress a ?st') \<longleftrightarrow> a \<in> set (map toLowerCase new)"
    using nowhere by (simp add: devices_addSubscription)
  have old_gone: "\<forall>a \<in> set (addresses old). a \<notin> set (map toLowerCase new) \<longrightarrow>
      D \<notin> set (getDevicesForAddress a ?st')"
    using resolves by blast
  show ?thesis
    using gone nowhere eq new_sub new_addrs resolves old_gone by blast
qed


text \<open>
  The replacement at the example registry: \<open>dev1\<close> watched \<open>0xaa\<close> and \<open>0xbb\<close>,
  subscribes again with \<open>0xBB\<close> and \<open>0xCC\<close>, and is no longer found under \<open>0xaa\<close>.
\<close>

theorem full_replace_witness:
  "Map_get ''dev1'' (subscriptions (run example_calls (new_service NoFile))) =
     Some \<lparr>addresses = [''0xaa'', ''0xbb''], expoPushToken = Some ''tokA'',
           createdAt = ''t1''\<rparr> \<and>
   Map_get ''dev1'' (subscriptions (addSubscription ''t3'' ''dev1'' [''0xBB'', ''0xCC''] ''tokC''
       (run example_calls (new_service NoFile)))) =
     Some \<lparr>addresses = [''0xbb'', ''0xcc''], expoPushToken = Some ''tokC'',
           createdAt = ''t3''\<rparr> \<and>
   ''dev1'' \<notin> set (getDevicesForAddress ''0xaa''
       (addSubscription ''t3'' ''dev1'' [''0xBB'', ''0xCC''] ''tokC''
          (run example_calls (new_service NoFile)))) \<and>
   ''dev1'' \<in> set (getDevicesForAddress ''0xcc''
       (addSubscription ''t3'' ''dev1'' [''0xBB'', ''0xCC''] ''tokC''
          (run example_calls (new_service NoFile))))"
proof -
  have h: "Map_get ''dev1'' (subscriptions (run example_calls (new_service NoFile))) =
     Some \<lparr>addresses = [''0xaa'', ''0xbb''], expoPushToken = Some ''tokA'',
           createdAt = ''t1''\<rparr>"
    using example_registry_eq by (simp add: example_registry_def)
  note fr = full_replace [OF h, of "''t3''" "[''0xBB'', ''0xCC'']" "''tokC''"]
  have l: "new_Set (map toLowerCase [''0xBB'', ''0xCC'']) = [''0xbb'', ''0xcc'']"
    by code_simp
  have m1: "''0xaa'' \<notin> set (map toLowerCase [''0xBB'', ''0xCC''])"
    by code_simp
  have m2: "''0xcc'' \<in> set (map toLowerCase [''0xBB'', ''0xCC''])"
    by code_simp
  have c1: "Map_get ''dev1'' (subscriptions (addSubscription ''t3'' ''dev1'' [''0xBB'', ''0xCC'']
       ''tokC'' (run example_calls (new_service NoFile)))) =
     Some \<lparr>addresses = [''0xbb'', ''0xcc''], expoPushToken = Some ''tokC'',
           createdAt = ''t3''\<rparr>"
    using fr unfolding l by blast
  have c2: "\<forall>a. ''dev1'' \<in> set (getDevicesForAddress a
       (addSubscription ''t3'' ''dev1'' [''0xBB'', ''0xCC''] ''tokC''
          (run example_calls (new_service NoFile)))) \<longleftrightarrow>
       a \<in> set (map toLowerCase [''0xBB'', ''0xCC''])"
    using fr by blast
  show ?thesis
    using h c1 c2 m1 m2 by blast
qed

subsection \<open>Reassignment\<close>

lemma keeps_address_after_unlink:
  assumes "index_is_inverse st" and "e \<noteq> d"
  shows "a \<in> set (addressesOf e (unlink_address d p a st)) \<longleftrightarrow>
         e \<in> set (getDevicesForAddress a st) \<and> \<not> hit d p st e"
proof (cases "e \<in> set (getDevicesForAddress a st)")
  case True
  then obtain s where s: "map_of (subscriptions st) e = Some s" "a \<in> set (addresses s)"
    using assms(1) by (auto simp: index_is_inverse_def)
  show ?thesis
    using True s assms(2)
    by (auto simp: addressesOf_def subscriptions_unlink_address unlinked_def stripped_def
        hit_def)
next
  case False
  then have "a \<notin> set (addressesOf e st)"
    using assms(1) by (simp add: index_is_inverse_iff)
  then show ?thesis
    using False by (simp add: addressesOf_def subscriptions_unlink_address)
qed

text \<open>
  Claim C4, as amended. Let device \<open>A\<close> be subscribed to the address \<open>A1\<close>
  (lower-cased) with push token \<open>P\<close>, in a state reached from the empty registry, and
  let \<open>B\<close> be another device. After \<open>addSubscription(B, [A1], P)\<close> the subscription
  of \<open>A\<close> is the old one without \<open>A1\<close>: it is deleted when \<open>A1\<close> was its only
  address, and every other address of \<open>A\<close> stays. \<open>A\<close> is no longer in the index entry
  of \<open>A1\<close>. That entry now holds \<open>B\<close> and those earlier subscribers of \<open>A1\<close> whose
  stored push token differs from \<open>P\<close>; it is \<open>{B}\<close> alone when every earlier
  subscriber other than \<open>B\<close> had the push token \<open>P\<close>.
\<close>

theorem reassignment:
  assumes "Map_get A (subscriptions (run calls (new_service f))) = Some sA"
    and "toLowerCase A1 \<in> set (addresses sA)"
    and "expoPushToken sA = Some P"
    and "B \<noteq> A"
  shows "Map_get A (subscriptions (addSubscription now B [A1] P (run calls (new_service f)))) =
           stripped (toLowerCase A1) sA \<and>
         toLowerCase A1 \<notin> set (addressesOf A
           (addSubscription now B [A1] P (run calls (new_service f)))) \<and>
         A \<notin> set (getDevicesForAddress (toLowerCase A1)
           (addSubscription now B [A1] P (run calls (new_service f)))) \<and>
         (set (addresses sA) \<subseteq> {toLowerCase A1} \<longrightarrow>
            Map_get A (subscriptions
              (addSubscription now B [A1] P (run calls (new_service f)))) = None) \<and>
         (\<forall>a \<in> set (addresses sA). a \<noteq> toLowerCase A1 \<longrightarrow>
            a \<in> set (addressesOf A
              (addSubscription now B [A1] P (run calls (new_service f))))) \<and>
         set (getDevicesForAddress (toLowerCase A1)
               (addSubscription now B [A1] P (run calls (new_service f)))) =
           insert B {e \<in> set (getDevicesForAddress (toLowerCase A1)
                         (run calls (new_service f))).
                     e \<noteq> B \<and>
                     (\<forall>s. Map_get e (subscriptions (run calls (new_service f))) = Some s \<longrightarrow>
                          expoPushToken s \<noteq> Some P)} \<and>
         ((\<forall>e \<in> set (getDevicesForAddress (toLowerCase A1) (run calls (new_service f))).
             e = B \<or> (\<exists>s. Map_get e (subscriptions (run calls (new_service f))) = Some s \<and>
                          expoPushToken s = Some P)) \<longrightarrow>
          set (getDevicesForAddress (toLowerCase A1)
                (addSubscription now B [A1] P (run calls (new_service f)))) = {B})"
proof -
  let ?st = "run calls (new_service f)"
  let ?a = "toLowerCase A1"
  let ?st' = "addSubscription now B [A1] P ?st"
  have inv: "index_is_inverse ?st"
    by (simp add: inverse_run new_service_ok)
  have inv': "index_is_inverse ?st'"
    using inv by (rule inverse_addSubscription)
  have A_in: "A \<in> set (getDevicesForAddress ?a ?st)"
    using inv assms(1,2) by (auto simp: index_is_inverse_def)
  have subA: "Map_get A (subscriptions ?st') = stripped ?a sA"
    using assms A_in
    by (simp add: subscriptions_addSubscription unlinkOldDevices_single
        subscriptions_unlink_address unlinked_def)
  have not_addr: "?a \<notin> set (addressesOf A ?st')"
    by (auto simp: addressesOf_def subA stripped_def)
  have not_dev: "A \<notin> set (getDevicesForAddress ?a ?st')"
    using inv' not_addr by (simp add: index_is_inverse_iff)
  have only: "set (addresses sA) \<subseteq> {?a} \<longrightarrow> Map_get A (subscriptions ?st') = None"
    by (simp add: subA stripped_def removeAll_eq_Nil_iff)
  have others: "\<forall>a \<in> set (addresses sA). a \<noteq> ?a \<longrightarrow> a \<in> set (addressesOf A ?st')"
    by (auto simp: addressesOf_def subA stripped_def removeAll_eq_Nil_iff)
  have devs: "set (getDevicesForAddress ?a ?st') =
      insert B {e \<in> set (getDevicesForAddress ?a ?st). e \<noteq> B \<and>
        (\<forall>s. Map_get e (subscriptions ?st) = Some s \<longrightarrow> expoPushToken s \<noteq> Some P)}"
  proof (rule set_eqI)
    fix e
    have "e \<in> set (getDevicesForAddress ?a ?st') \<longleftrightarrow> ?a \<in> set (addressesOf e ?st')"
      using inv' by (simp add: index_is_inverse_iff)
    also have "\<dots> \<longleftrightarrow> e = B \<or> (e \<in> set (getDevicesForAddress ?a ?st) \<and> \<not> hit B P ?st e)"
      using keeps_address_after_unlink [OF inv, of e B ?a P]
      by (cases "e = B") (simp_all add: addressesOf_addSubscription unlinkOldDevices_single)
    also have "\<dots> \<longleftrightarrow> e \<in> insert B {e \<in> set (getDevicesForAddress ?a ?st). e \<noteq> B \<and>
        (\<forall>s. Map_get e (subscriptions ?st) = Some s \<longrightarrow> expoPushToken s \<noteq> Some P)}"
      by (auto simp: hit_def split: option.splits)
    finally show "e \<in> set (getDevicesForAddress ?a ?st') \<longleftrightarrow>
      e \<in> insert B {e \<in> set (getDevicesForAddress ?a ?st). e \<noteq> B \<and>
        (\<forall>s. Map_get e (subscriptions ?st) = Some s \<longrightarrow> expoPushToken s \<noteq> Some P)}" .
  qed
  have alone: "(\<forall>e \<in> set (getDevicesForAddress ?a ?st).
        e = B \<or> (\<exists>s. Map_get e (subscriptions ?st) = Some s \<and> expoPushToken s = Some P)) \<longrightarrow>
      set (getDevicesForAddress ?a ?st') = {B}"
    unfolding devs by auto
  show ?thesis
    using subA not_addr not_dev only others devs alone by blast
qed


text \<open>
  The reassignment at the example registry: \<open>dev2\<close> subscribes to \<open>0xAA\<close> with the
  push token of \<open>dev1\<close>, which keeps \<open>0xbb\<close> only.
\<close>

theorem reassignment_witness:
  "Map_get ''dev1'' (subscriptions (run example_calls (new_service NoFile))) =
     Some \<lparr>addresses = [''0xaa'', ''0xbb''], expoPushToken = Some ''tokA'',
           createdAt = ''t1''\<rparr> \<and>
   toLowerCase ''0xAA'' \<in> set [''0xaa'', ''0xbb''] \<and>
   ''dev2'' \<noteq> ''dev1'' \<and>
   Map_get ''dev1'' (subscriptions (addSubscription ''t3'' ''dev2'' [''0xAA''] ''tokA''
       (run example_calls (new_service NoFile)))) =
     Some \<lparr>addresses = [''0xbb''], expoPushToken = Some ''tokA'', createdAt = ''t1''\<rparr> \<and>
   ''dev1'' \<notin> set (getDevicesForAddress (toLowerCase ''0xAA'')
       (addSubscription ''t3'' ''dev2'' [''0xAA''] ''tokA''
          (run example_calls (new_service NoFile))))"
proof -
  let ?sA = "\<lparr>addresses = [''0xaa'', ''0xbb''], expoPushToken = Some ''tokA'',
              createdAt = ''t1''\<rparr>"
  have h1: "Map_get ''dev1'' (subscriptions (run example_calls (new_service NoFile))) = Some ?sA"
    using example_registry_eq by (simp add: example_registry_def)
  have h2: "toLowerCase ''0xAA'' \<in> set (addresses ?sA)"
    by code_simp
  have h3: "expoPushToken ?sA = Some ''tokA''"
    by simp
  have h4: "''dev2'' \<noteq> ''dev1''"
    by simp
  note r = reassignment [OF h1 h2 h3 h4, of "''t3''"]
  have s: "stripped (toLowerCase ''0xAA'') ?sA =
      Some \<lparr>addresses = [''0xbb''], expoPushToken = Some ''tokA'', createdAt = ''t1''\<rparr>"
    by code_simp
  have c1: "Map_get ''dev1'' (subscriptions (addSubscription ''t3'' ''dev2'' [''0xAA''] ''tokA''
       (run example_calls (new_service NoFile)))) =
     Some \<lparr>addresses = [''0xbb''], expoPushToken = Some ''tokA'', createdAt = ''t1''\<rparr>"
    using r unfolding s by blast
  have c2: "''dev1'' \<notin> set (getDevicesForAddress (toLowerCase ''0xAA'')
       (addSubscription ''t3'' ''dev2'' [''0xAA''] ''tokA''
          (run example_calls (new_service NoFile))))"
    using r by blast
  show ?thesis
    using h1 h2 h4 c1 c2 by simp
qed

text \<open>
  Claim C4 as it is stated ends with: the lookup of \<open>A1\<close> returns \<open>{B}\<close> only. In the
  example registry \<open>dev3\<close> watches \<open>0xaa\<close> with another push token, \<open>tokB\<close>. It is
  not unlinked when \<open>dev2\<close> subscribes with \<open>tokA\<close>, and the lookup returns \<open>dev3\<close>
  and \<open>dev2\<close>.
\<close>

theorem reassignment_counterexample:
  "Map_get ''dev1'' (subscriptions example_registry) =
     Some \<lparr>addresses = [''0xaa'', ''0xbb''], expoPushToken = Some ''tokA'',
           createdAt = ''t1''\<rparr> \<and>
   toLowerCase ''0xAA'' = ''0xaa'' \<and>
   getDevicesForAddress (toLowerCase ''0xAA'')
     (addSubscription ''t3'' ''dev2'' [''0xAA''] ''tokA'' example_registry) =
     [''dev3'', ''dev2''] \<and>
   set (getDevicesForAddress (toLowerCase ''0xAA'')
     (addSubscription ''t3'' ''dev2'' [''0xAA''] ''tokA'' example_registry)) \<noteq> {''dev2''}"
  by code_simp

subsection \<open>Lookups\<close>

lemma lookup_is_exact:
  "set (getDevicesForAddress a (run calls (new_service f))) =
     {d. a \<in> set (addressesOf d (run calls (new_service f)))}"
  using inverse_run [OF new_service_ok(2), of calls f]
  by (auto simp: index_is_inverse_iff)

text \<open>
  Claim C2 says that \<open>getDevicesForAddress\<close> lower-cases the address as the write path
  does. The code looks the address up as it is given. After \<open>dev1\<close> has subscribed to
  \<open>0xAA\<close>, its subscription holds the lower-cased \<open>0xaa\<close>; the lookup of \<open>0xAA\<close>
  returns no device, where the claim promises \<open>dev1\<close>. Only the lookup of the
  lower-cased address finds it.
\<close>

theorem lookup_not_normalized:
  "toLowerCase ''0xAA'' \<in> set (addressesOf ''dev1''
      (addSubscription ''t1'' ''dev1'' [''0xAA''] ''tokA'' (new_service NoFile))) \<and>
   getDevicesForAddress ''0xAA''
      (addSubscription ''t1'' ''dev1'' [''0xAA''] ''tokA'' (new_service NoFile)) = [] \<and>
   getDevicesForAddress (toLowerCase ''0xAA'')
      (addSubscription ''t1'' ''dev1'' [''0xAA''] ''tokA'' (new_service NoFile)) = [''dev1'']"
  by code_simp

subsection \<open>The sentinel address\<close>

text \<open>
  Claim C9, as amended. Take a subscribe request that passes the checks made before the
  sentinel is looked at: it names a device token, and every address of its non-empty list
  passes the address validation. If the list contains the all-zero address of 64
  characters, the route answers with success and has removed the subscription of the
  device, whatever push token was stored and whatever push token (if any) the request
  carries; in a registry reached from the empty one the device then has no address and
  no address resolves to it.
\<close>

theorem sentinel_unsubscribe:
  assumes "req_deviceToken req = Some d" and "d \<noteq> []"
    and "req_addresses req = Some addrs"
    and "\<forall>a \<in> set addrs. isShardusAddress a"
    and "DUMMY_ADDRESS \<in> set addrs"
  shows "fst (subscribe isShardusAddress isExpoPushToken now req (run calls (new_service f))) =
           Status200 ''Subscription removed successfully'' \<and>
         snd (subscribe isShardusAddress isExpoPushToken now req (run calls (new_service f))) =
           removeSubscription now d (run calls (new_service f)) \<and>
         Map_get d (subscriptions
           (snd (subscribe isShardusAddress isExpoPushToken now req
              (run calls (new_service f))))) = None \<and>
         addressesOf d
           (snd (subscribe isShardusAddress isExpoPushToken now req
              (run calls (new_service f)))) = [] \<and>
         (\<forall>a. d \<notin> set (getDevicesForAddress a
           (snd (subscribe isShardusAddress isExpoPushToken now req
              (run calls (new_service f))))))"
proof -
  let ?st = "run calls (new_service f)"
  have ne: "addrs \<noteq> []"
    using assms(5) by auto
  have res: "subscribe isShardusAddress isExpoPushToken now req ?st =
      (Status200 ''Subscription removed successfully'', removeSubscription now d ?st)"
    using assms ne by (simp add: subscribe_def)
  have inv: "index_is_inverse ?st"
    by (simp add: inverse_run new_service_ok)
  show ?thesis
    unfolding res using inv
    by (simp add: subscriptions_removeSubscription addressesOf_removeSubscription
        removed_device_resolves_nowhere)
qed

text \<open>
  The sentinel at the example registry: \<open>dev1\<close> sends the all-zero address and no push
  token.
\<close>

theorem sentinel_unsubscribe_witness:
  "list_all hex64 [DUMMY_ADDRESS] \<and>
   Map_get ''dev1'' (subscriptions (run example_calls (new_service NoFile))) \<noteq> None \<and>
   fst (subscribe hex64 bracketed_token ''t3''
          \<lparr>req_deviceToken = Some ''dev1'', req_addresses = Some [DUMMY_ADDRESS],
           req_expoPushToken = None\<rparr> (run example_calls (new_service NoFile))) =
     Status200 ''Subscription removed successfully'' \<and>
   Map_get ''dev1'' (subscriptions
     (snd (subscribe hex64 bracketed_token ''t3''
          \<lparr>req_deviceToken = Some ''dev1'', req_addresses = Some [DUMMY_ADDRESS],
           req_expoPushToken = None\<rparr> (run example_calls (new_service NoFile))))) = None"
proof -
  let ?req = "\<lparr>req_deviceToken = Some ''dev1'', req_addresses = Some [DUMMY_ADDRESS],
           req_expoPushToken = None\<rparr>"
  have v: "list_all hex64 [DUMMY_ADDRESS]"
    by code_simp
  have h1: "req_deviceToken ?req = Some ''dev1''" and h2: "''dev1'' \<noteq> []"
    and h3: "req_addresses ?req = Some [DUMMY_ADDRESS]"
    by simp_all
  have h4: "\<forall>a \<in> set [DUMMY_ADDRESS]. hex64 a"
    using v by simp
  have h5: "DUMMY_ADDRESS \<in> set [DUMMY_ADDRESS]"
    by simp
  have before: "Map_get ''dev1'' (subscriptions (run example_calls (new_service NoFile))) \<noteq> None"
    using example_registry_eq by (simp add: example_registry_def)
  show ?thesis
    using v before
      sentinel_unsubscribe [OF h1 h2 h3 h4 h5, of bracketed_token "''t3''" example_calls NoFile]
    by blast
qed

text \<open>
  Claim C9 as it is stated speaks of every request whose list contains the sentinel. A
  request that carries the sentinel beside an address the validation rejects is answered
  with status 400 and the subscription of the device stays; so is a request without a
  device token.
\<close>

theorem sentinel_unsubscribe_counterexample:
  "fst (subscribe hex64 bracketed_token ''t3''
          \<lparr>req_deviceToken = Some ''dev1'', req_addresses = Some [DUMMY_ADDRESS, ''xyz''],
           req_expoPushToken = Some ''ExponentPushToken[a]''\<rparr> example_registry) =
     Status400 ''INVALID_ADDRESS'' \<and>
   Map_get ''dev1'' (subscriptions
     (snd (subscribe hex64 bracketed_token ''t3''
          \<lparr>req_deviceToken = Some ''dev1'', req_addresses = Some [DUMMY_ADDRESS, ''xyz''],
           req_expoPushToken = Some ''ExponentPushToken[a]''\<rparr> example_registry))) =
     Some \<lparr>addresses = [''0xaa'', ''0xbb''], expoPushToken = Some ''tokA'',
           createdAt = ''t1''\<rparr> \<and>
   fst (subscribe hex64 bracketed_token ''t3''
          \<lparr>req_deviceToken = None, req_addresses = Some [DUMMY_ADDRESS],
           req_expoPushToken = Some ''ExponentPushToken[a]''\<rparr> example_registry) =
     Status400 ''MISSING_DEVICE_TOKEN''"
  by code_simp

section \<open>Loading the snapshot\<close>



section \<open>The subscriber\<close>

text \<open>
  Claim C3 says that a frame that does not decode is dropped and the client keeps
  running. The message handler calls \<open>JSON.parse\<close> with no \<open>try\<close> around it: a
  frame that decodes goes to \<open>handleMessage\<close>, but on every frame that does not the
  SyntaxError leaves the handler, and the run of the client ends there, before the
  frames that follow.
\<close>

theorem malformed_frame_throws:
  "on_message (Json m) st = Inr (handleMessage m st) \<and>
   on_message (NotJson s) st = Inl SyntaxError \<and>
   receive (Message (NotJson s) # es) st = Inl SyntaxError \<and>
   receive [Open, Message (NotJson ''not json''), Message (Json m)] two_attempts =
     Inl SyntaxError"
  by (simp add: on_message_def JSON_parse_def)


subsection \<open>The reconnect budget\<close>


lemma printed_say [simp]: "printed (say l st) = printed st @ [l]"
  and config_say [simp]: "config (say l st) = config st"
  and reconnectAttempts_say [simp]: "reconnectAttempts (say l st) = reconnectAttempts st"
  and isReconnecting_say [simp]: "isReconnecting (say l st) = isReconnecting st"
  and ws_say [simp]: "ws (say l st) = ws st"
  and timers_say [simp]: "timers (say l st) = timers st"
  by (simp_all add: say_def)





















section \<open>Saving and loading\<close>

lemma map_of_fold_update:
  "distinct (map fst xs) \<Longrightarrow>
   map_of (fold (\<lambda>e. AList.update (fst e) (g (snd e))) xs acc) k =
     (case map_of xs k of None \<Rightarrow> map_of acc k | Some v \<Rightarrow> Some (g v))"
proof (induction xs arbitrary: acc)
  case Nil
  then show ?case by simp
next
  case (Cons x xs)
  have "map_of xs (fst x) = None"
    using Cons.prems by (cases x) (auto simp: map_of_eq_None_iff)
  then show ?case
    using Cons by (cases x) (auto simp: update_conv' split: option.splits)
qed

lemma distinct_fold_update:
  "distinct (map fst acc) \<Longrightarrow>
   distinct (map fst (fold (\<lambda>e. AList.update (fst e) (g (snd e))) xs acc))"
  by (induction xs arbitrary: acc) (auto simp: distinct_update)

lemma fold_snapshot_entry:
  assumes "''__proto__'' \<notin> fst ` set xs"
  shows "fold snapshot_entry xs acc =
         fold (\<lambda>e. AList.update (fst e) (subscription_data (snd e))) xs acc"
proof (rule fold_cong)
  fix e
  assume "e \<in> set xs"
  then have "fst e \<noteq> ''__proto__''"
    using assms by force
  then show "snapshot_entry e = AList.update (fst e) (subscription_data (snd e))"
    by (cases e) (simp add: snapshot_entry_def object_assign_def fun_eq_iff)
qed simp_all

lemma fold_restore_entry:
  "fold restore_entry xs acc = fold (\<lambda>e. AList.update (fst e) (restored (snd e))) xs acc"
  by (rule fold_cong) (auto simp: restore_entry_def intro!: ext)

lemma content_restored [simp]: "content (restored (subscription_data s)) = content s"
  by (simp add: content_def restored_def subscription_data_def Array_from_def)

lemma getDevicesForAddress_devicesAt:
  "getDevicesForAddress a st = devicesAt a (addressToDevices st)"
  by (simp add: getDevicesForAddress_def devicesAt_def)

lemma devicesAt_Nil [simp]: "devicesAt a [] = []"
  by (simp add: devicesAt_def)

lemma devicesAt_rebuild_entry:
  "set (devicesAt a (rebuild_entry (d', s) idx)) =
     (if a \<in> set (addresses s) then insert d' (set (devicesAt a idx))
      else set (devicesAt a idx))"
  by (auto simp: devicesAt_def rebuild_entry_def map_of_fold_index_add split: option.splits)

lemma devicesAt_fold_rebuild_entry:
  "set (devicesAt a (fold rebuild_entry xs idx)) =
     set (devicesAt a idx) \<union> {d. \<exists>s. (d, s) \<in> set xs \<and> a \<in> set (addresses s)}"
proof (induction xs arbitrary: idx)
  case Nil
  then show ?case by simp
next
  case (Cons x xs)
  obtain d' s' where x: "x = (d', s')" by (cases x)
  show ?case
    unfolding x by (auto simp: Cons.IH devicesAt_rebuild_entry)
qed

lemma saved_file:
  "dataFile st \<noteq> Denied \<Longrightarrow>
   dataFile (saveSubscriptions now st) = File (Json (snapshot now st))"
  by (cases "dataFile st")
     (simp_all add: saveSubscriptions_def fs_writeFile_def JSON_stringify_def console_log_def)

lemma loaded_service:
  "new_NotificationService (File (Json sv)) =
     console_log (Loaded (length (fold restore_entry (Object_entries (saved_subscriptions sv)) [])))
       ((new_service (File (Json sv)))
          \<lparr>subscriptions := fold restore_entry (Object_entries (saved_subscriptions sv)) [],
           addressToDevices :=
             fold rebuild_entry
               (fold restore_entry (Object_entries (saved_subscriptions sv)) []) []\<rparr>)"
  by (simp add: new_NotificationService_def loadSubscriptions_def load_snapshot_def
      fs_readFile_def JSON_parse_def new_service_def Let_def)

lemma round_trip_subscriptions:
  assumes "keys_unique st" and "''__proto__'' \<notin> fst ` set (subscriptions st)"
    and "dataFile st \<noteq> Denied"
  shows "map_of (subscriptions (new_NotificationService (dataFile (saveSubscriptions now st)))) d =
         map_option (restored \<circ> subscription_data) (map_of (subscriptions st) d)"
proof -
  let ?entries = "fold (\<lambda>e. AList.update (fst e) (subscription_data (snd e))) (subscriptions st) []"
  have k: "distinct (map fst (subscriptions st))"
    using assms(1) by (simp add: keys_unique_def)
  have e: "map_of ?entries d = map_option subscription_data (map_of (subscriptions st) d)"
    by (simp add: map_of_fold_update [OF k] split: option.splits)
  have de: "distinct (map fst ?entries)"
    by (rule distinct_fold_update) simp
  have "map_of (fold (\<lambda>e. AList.update (fst e) (restored (snd e))) ?entries []) d =
      map_option restored (map_of ?entries d)"
    by (simp add: map_of_fold_update [OF de] split: option.splits)
  then show ?thesis
    using assms(2,3)
    by (simp add: saved_file loaded_service snapshot_def Object_entries_def
        fold_snapshot_entry fold_restore_entry e option.map_comp)
qed


lemma round_trip_index:
  assumes "keys_unique st" and "index_is_inverse st"
    and "''__proto__'' \<notin> fst ` set (subscriptions st)"
    and "dataFile st \<noteq> Denied"
  shows "set (getDevicesForAddress a
           (new_NotificationService (dataFile (saveSubscriptions now st)))) =
         set (getDevicesForAddress a st)"
proof -
  let ?loaded = "new_NotificationService (dataFile (saveSubscriptions now st))"
  let ?subs = "fold restore_entry
      (Object_entries (saved_subscriptions (snapshot now st))) []"
  have subs: "subscriptions ?loaded = ?subs"
    using assms(4) by (simp add: saved_file loaded_service)
  have idx: "addressToDevices ?loaded = fold rebuild_entry ?subs []"
    using assms(4) by (simp add: saved_file loaded_service)
  have d: "distinct (map fst ?subs)"
    unfolding fold_restore_entry by (rule distinct_fold_update) simp
  have look: "\<And>d. map_of ?subs d =
      map_option (restored \<circ> subscription_data) (map_of (subscriptions st) d)"
    using round_trip_subscriptions [OF assms(1,3,4), of now] subs by simp
  show ?thesis
  proof (rule set_eqI)
    fix e
    have "e \<in> set (getDevicesForAddress a ?loaded) \<longleftrightarrow>
        (\<exists>s. (e, s) \<in> set ?subs \<and> a \<in> set (addresses s))"
      by (simp add: getDevicesForAddress_devicesAt idx devicesAt_fold_rebuild_entry)
    also have "\<dots> \<longleftrightarrow> (\<exists>s. map_of ?subs e = Some s \<and> a \<in> set (addresses s))"
      using d by simp
    also have "\<dots> \<longleftrightarrow> (\<exists>s. map_of (subscriptions st) e = Some s \<and> a \<in> set (addresses s))"
      unfolding look
      by (cases "map_of (subscriptions st) e")
         (simp_all add: restored_def subscription_data_def Array_from_def)
    also have "\<dots> \<longleftrightarrow> e \<in> set (getDevicesForAddress a st)"
      using assms(2) by (simp add: index_is_inverse_def)
    finally show "e \<in> set (getDevicesForAddress a ?loaded) \<longleftrightarrow>
        e \<in> set (getDevicesForAddress a st)" .
  qed
qed

lemma dataFile_unlink_device [simp]:
  "dataFile (unlink_device d p a o' st) = dataFile st"
  by (simp add: unlink_device_def Let_def console_log_def split: option.splits)

lemma dataFile_fold_unlink_device [simp]:
  "dataFile (fold (unlink_device d p a) os st) = dataFile st"
  by (induction os arbitrary: st) simp_all

lemma dataFile_unlinkOldDevices [simp]:
  "dataFile (unlinkOldDevices d as p st) = dataFile st"
  unfolding unlinkOldDevices_def
  by (induction as arbitrary: st) (simp_all add: unlink_address_def split: option.splits)

lemma writable_saveSubscriptions:
  "dataFile st \<noteq> Denied \<Longrightarrow> dataFile (saveSubscriptions now st) \<noteq> Denied"
  by (simp add: saved_file)

lemma writable_removeSubscription:
  "dataFile st \<noteq> Denied \<Longrightarrow> dataFile (removeSubscription now d st) \<noteq> Denied"
  by (simp add: removeSubscription_def writable_saveSubscriptions split: option.splits)

lemma writable_addSubscription:
  "dataFile st \<noteq> Denied \<Longrightarrow> dataFile (addSubscription now d as p st) \<noteq> Denied"
  by (simp add: addSubscription_def install_def Let_def writable_saveSubscriptions
      writable_removeSubscription)

lemma writable_run:
  "dataFile st \<noteq> Denied \<Longrightarrow> dataFile (run calls st) \<noteq> Denied"
  unfolding run_def
proof (induction calls arbitrary: st)
  case Nil
  then show ?case by simp
next
  case (Cons c calls)
  have "dataFile (perform c st) \<noteq> Denied"
    using Cons.prems by (cases c) (simp_all add: writable_addSubscription writable_removeSubscription)
  then show ?case by (simp add: Cons.IH)
qed

text \<open>
  Saving a state reached from the empty registry and loading the file into a fresh
  service gives back every subscription, up to the order of its addresses, and an index
  that resolves every address to the same devices, provided the disk can be written and
  no device token is the string \<open>__proto__\<close>.
\<close>

lemma snapshot_round_trip:
  assumes "f \<noteq> Denied"
    and "''__proto__'' \<notin> fst ` set (subscriptions (run calls (new_service f)))"
  shows "map_option content (Map_get d (subscriptions (new_NotificationService
             (dataFile (saveSubscriptions now (run calls (new_service f))))))) =
         map_option content (Map_get d (subscriptions (run calls (new_service f)))) \<and>
         set (getDevicesForAddress a (new_NotificationService
             (dataFile (saveSubscriptions now (run calls (new_service f)))))) =
         set (getDevicesForAddress a (run calls (new_service f)))"
proof -
  let ?st = "run calls (new_service f)"
  have k: "keys_unique ?st" and i: "index_is_inverse ?st"
    by (simp_all add: keys_unique_run inverse_run new_service_ok)
  have w: "dataFile ?st \<noteq> Denied"
    using assms(1) by (intro writable_run) (simp add: new_service_def)
  show ?thesis
    using round_trip_subscriptions [OF k assms(2) w, of now d]
      round_trip_index [OF k i assms(2) w, of a now]
    by (simp add: option.map_comp comp_def)
qed

text \<open>
  Claim C7 says that saving any reachable state and loading the snapshot into a fresh
  registry reproduces the subscriptions and the index. A device may subscribe under the
  token \<open>__proto__\<close>: the route only asks for a non-empty string. The registry holds
  its subscription, but \<open>saveSubscriptions\<close> collects the subscriptions in an object
  literal, where the assignment under that name sets the prototype and stores no
  property. The snapshot that is written holds no subscription, and the service loaded
  from it has an empty registry: the address that resolved to the device resolves to
  nothing.
\<close>

theorem round_trip_loses_device:
  "subscriptions (addSubscription ''t1'' ''__proto__'' [''0xAA''] ''tokA'' (new_service NoFile)) =
     [(''__proto__'', \<lparr>addresses = [''0xaa''], expoPushToken = Some ''tokA'',
                       createdAt = ''t1''\<rparr>)] \<and>
   getDevicesForAddress ''0xaa''
     (addSubscription ''t1'' ''__proto__'' [''0xAA''] ''tokA'' (new_service NoFile)) =
     [''__proto__''] \<and>
   dataFile (addSubscription ''t1'' ''__proto__'' [''0xAA''] ''tokA'' (new_service NoFile)) =
     File (Json \<lparr>saved_subscriptions = Some [], lastUpdated = ''t1''\<rparr>) \<and>
   subscriptions (new_NotificationService (dataFile
     (addSubscription ''t1'' ''__proto__'' [''0xAA''] ''tokA'' (new_service NoFile)))) = [] \<and>
   getDevicesForAddress ''0xaa'' (new_NotificationService (dataFile
     (addSubscription ''t1'' ''__proto__'' [''0xAA''] ''tokA'' (new_service NoFile)))) = []"
  by code_simp

end
